theory Spec2Isabelle
  imports Main "HOL-Library.AList"
begin

section \<open>Python values shared by the three modules\<close>

text \<open>
  Exceptions are values. \<open>BeartypeViolation\<close> is what the \<open>@beartype\<close> decorator raises
  when an argument does not fit its annotation; the others are the builtin exceptions of the
  same name. External collaborators (a criterion, a marginal's \<open>icdf\<close>, an optimizer) may
  raise any of them.
\<close>

datatype error = BeartypeViolation | ValueError | IndexError | TypeError
  | AttributeError | KeyError

text \<open>
  An argument as the caller passes it: \<open>IllTyped\<close> is any Python object outside the
  annotated type, \<open>WellTyped x\<close> a value of it.
\<close>

datatype 'a py_arg = IllTyped | WellTyped 'a

section \<open>Two-dimensional arrays\<close>

text \<open>
  A numpy array of two dimensions: its shape and its entries in row-major order. The
  entries stay polymorphic (the engine never computes with them); \<open>np.zeros\<close> needs a zero.
\<close>

record 'a matrix =
  nrows :: nat
  ncols :: nat
  cells :: "'a list list"

definition shape :: "'a matrix \<Rightarrow> nat \<times> nat" where
  "shape M = (nrows M, ncols M)"

definition wf_matrix :: "'a matrix \<Rightarrow> bool" where
  "wf_matrix M \<longleftrightarrow> length (cells M) = nrows M \<and> list_all (\<lambda>r. length r = ncols M) (cells M)"

definition zeros :: "nat \<Rightarrow> nat \<Rightarrow> ('a::zero) matrix" where
  "zeros n d = \<lparr>nrows = n, ncols = d, cells = replicate n (replicate d 0)\<rparr>"

text \<open>\<open>M[:, j]\<close>, read for \<open>j < ncols M\<close> (the callers raise IndexError otherwise).\<close>

definition column :: "nat \<Rightarrow> 'a matrix \<Rightarrow> 'a list" where
  "column j M = map (\<lambda>r. r ! j) (cells M)"

text \<open>
  Assigning a one-dimensional value to a column of \<open>n\<close> rows: numpy takes a value of length
  \<open>n\<close> as it is, broadcasts a value of length 1, and raises ValueError for any other length.
\<close>

definition broadcast_column :: "nat \<Rightarrow> 'a list \<Rightarrow> error + 'a list" where
  "broadcast_column n v =
     (if length v = n then Inr v
      else if length v = 1 then Inr (replicate n (hd v))
      else Inl ValueError)"

definition set_column :: "nat \<Rightarrow> 'a list \<Rightarrow> 'a matrix \<Rightarrow> 'a matrix" where
  "set_column j v M = M\<lparr>cells := map (\<lambda>(r, x). r[j := x]) (zip (cells M) v)\<rparr>"

text \<open>
  What an attribute of the engine may hold: \<open>None\<close>, the zero-dimensional array that
  \<open>np.zeros_like(None)\<close> returns, or a two-dimensional array.
\<close>

datatype 'a attr = PyNone | ZeroDim | Array2D "'a matrix"

section \<open>LatinHypercubeSampling\<close>

subsection \<open>Collaborators\<close>

text \<open>
  A distribution is seen through its \<open>icdf\<close> only: \<open>hasattr(d, "icdf")\<close> is
  \<open>icdf d \<noteq> None\<close>. The method is applied to a column (line 90, 95) and, for a single
  distribution, to the whole array (line 99); it may raise.
\<close>

record 'a icdf_method =
  on_column :: "'a list \<Rightarrow> error + 'a list"
  on_matrix :: "'a matrix \<Rightarrow> error + 'a matrix"

record 'a distribution =
  icdf :: "'a icdf_method option"

text \<open>
  The \<open>distributions\<close> argument once it has passed the annotation
  \<open>Union[Distribution, list[Distribution]]\<close>: a list, a \<open>DistributionContinuous1D\<close>, a
  \<open>JointIndependent\<close> with its \<open>marginals\<close>, or a \<open>Distribution\<close> of another class.
\<close>

datatype 'a dist_object =
    DistList "'a distribution list"
  | Continuous1D "'a distribution"
  | JointIndependent "'a distribution list"
  | OtherDistribution "'a distribution"

text \<open>
  The criterion is a parameter of the engine (its classes are not part of these files). It is
  an object with state \<open>'c\<close>: \<open>create_bins\<close> receives the engine's \<open>samples\<close> attribute,
  \<open>generate_samples\<close> returns the unit-hypercube design; both may raise and both may change
  the criterion's state. The array returned is taken to be a fresh one.
\<close>

record ('a, 'c) criterion =
  create_bins :: "'a attr \<Rightarrow> 'c \<Rightarrow> error option \<times> 'c"
  generate_samples :: "'c \<Rightarrow> (error + 'a matrix) \<times> 'c"

record ('a, 'c) lhs =
  dist_object :: "'a dist_object"
  criterion :: "('a, 'c) criterion"
  crit_state :: 'c
  samples_number :: int
  samples :: "'a attr"
  samplesU01 :: "'a attr"

subsection \<open>run\<close>

text \<open>
  \<open>self.samples[:, j] = d.icdf(u_lhs[:, j])\<close>: the right-hand side is evaluated first
  (IndexError when \<open>u_lhs\<close> has no column \<open>j\<close>, then whatever \<open>icdf\<close> raises), then the
  assignment (TypeError on \<open>None\<close>, IndexError on a missing column, ValueError when the
  value cannot be broadcast).
\<close>

definition assign_column ::
  "nat \<Rightarrow> 'a icdf_method \<Rightarrow> 'a matrix \<Rightarrow> 'a attr \<Rightarrow> error + 'a attr" where
  "assign_column j f u s =
     (if ncols u \<le> j then Inl IndexError
      else case on_column f (column j u) of
        Inl err \<Rightarrow> Inl err
      | Inr v \<Rightarrow>
          (case s of
             PyNone \<Rightarrow> Inl TypeError
           | ZeroDim \<Rightarrow> Inl IndexError
           | Array2D M \<Rightarrow>
               if ncols M \<le> j then Inl IndexError
               else (case broadcast_column (nrows M) v of
                       Inl err \<Rightarrow> Inl err
                     | Inr w \<Rightarrow> Inr (Array2D (set_column j w M)))))"

text \<open>
  Lines 88-90, the loop over a list of distributions from index \<open>j\<close> on. An exception
  leaves \<open>self.samples\<close> as the columns before it made it.
\<close>

fun transform_list ::
  "'a distribution list \<Rightarrow> nat \<Rightarrow> 'a matrix \<Rightarrow> 'a attr \<Rightarrow> error option \<times> 'a attr" where
  "transform_list [] j u s = (None, s)"
| "transform_list (d # ds) j u s =
     (case icdf d of
        None \<Rightarrow> transform_list ds (Suc j) u s
      | Some f \<Rightarrow>
          (case assign_column j f u s of
             Inl err \<Rightarrow> (Some err, s)
           | Inr s' \<Rightarrow> transform_list ds (Suc j) u s'))"

text \<open>
  Lines 94-95, the loop over the marginals of a \<open>JointIndependent\<close>: no \<open>hasattr\<close> test
  inside the loop, so a marginal without \<open>icdf\<close> would raise AttributeError here.
\<close>

fun transform_joint ::
  "'a distribution list \<Rightarrow> nat \<Rightarrow> 'a matrix \<Rightarrow> 'a attr \<Rightarrow> error option \<times> 'a attr" where
  "transform_joint [] j u s = (None, s)"
| "transform_joint (d # ds) j u s =
     (case icdf d of
        None \<Rightarrow> (Some AttributeError, s)
      | Some f \<Rightarrow>
          (case assign_column j f u s of
             Inl err \<Rightarrow> (Some err, s)
           | Inr s' \<Rightarrow> transform_joint ds (Suc j) u s'))"

text \<open>Lines 87-99: the three \<open>isinstance\<close> branches, given the criterion's \<open>u_lhs\<close>.\<close>

definition transform :: "'a matrix \<Rightarrow> ('a, 'c) lhs \<Rightarrow> error option \<times> ('a, 'c) lhs" where
  "transform u e =
     (case dist_object e of
        DistList ds \<Rightarrow>
          (case transform_list ds 0 u (samples e) of (r, s) \<Rightarrow> (r, e\<lparr>samples := s\<rparr>))
      | JointIndependent ms \<Rightarrow>
          if list_all (\<lambda>m. icdf m \<noteq> None) ms
          then (case transform_joint ms 0 u (samples e) of (r, s) \<Rightarrow> (r, e\<lparr>samples := s\<rparr>))
          else (None, e)
      | Continuous1D d \<Rightarrow>
          (case icdf d of
             None \<Rightarrow> (None, e)
           | Some f \<Rightarrow>
               (case on_matrix f u of
                  Inl err \<Rightarrow> (Some err, e)
                | Inr x \<Rightarrow> (None, e\<lparr>samples := Array2D x\<rparr>)))
      | OtherDistribution d \<Rightarrow> (None, e))"

text \<open>
  \<open>run\<close> (lines 63-101) returns the exception raised, if any, and the engine as the call
  leaves it, so that the state after a failure can be inspected. \<open>@beartype\<close> rejects a
  \<open>samples_number\<close> that is not positive before the body runs.
\<close>

definition run :: "int \<Rightarrow> ('a, 'c) lhs \<Rightarrow> error option \<times> ('a, 'c) lhs" where
  "run n e =
     (if n \<le> 0 then (Some BeartypeViolation, e)
      else
        let e1 = e\<lparr>samples_number := n\<rparr> in
        case create_bins (criterion e1) (samples e1) (crit_state e1) of
          (Some err, c1) \<Rightarrow> (Some err, e1\<lparr>crit_state := c1\<rparr>)
        | (None, c1) \<Rightarrow>
            (case generate_samples (criterion e1) c1 of
               (Inl err, c2) \<Rightarrow> (Some err, e1\<lparr>crit_state := c2\<rparr>)
             | (Inr u_lhs, c2) \<Rightarrow>
                 transform u_lhs (e1\<lparr>crit_state := c2, samplesU01 := Array2D u_lhs\<rparr>)))"

subsection \<open>The constructor\<close>

text \<open>Lines 46-55: \<open>self.samples\<close> stays \<open>None\<close> unless one of the three branches is taken.\<close>

definition alloc_samples :: "'a dist_object \<Rightarrow> int \<Rightarrow> ('a::zero) attr" where
  "alloc_samples d n =
     (case d of
        DistList ds \<Rightarrow> Array2D (zeros (nat n) (length ds))
      | Continuous1D _ \<Rightarrow> Array2D (zeros (nat n) 1)
      | JointIndependent ms \<Rightarrow> Array2D (zeros (nat n) (length ms))
      | OtherDistribution _ \<Rightarrow> PyNone)"

text \<open>Line 57: \<open>np.zeros_like\<close>.\<close>

definition zeros_like :: "('a::zero) attr \<Rightarrow> 'a attr" where
  "zeros_like a =
     (case a of
        Array2D M \<Rightarrow> Array2D (zeros (nrows M) (ncols M))
      | _ \<Rightarrow> ZeroDim)"

text \<open>The engine as lines 42-57 leave it, before \<open>run\<close> is invoked.\<close>

definition allocated ::
  "'a dist_object \<Rightarrow> int \<Rightarrow> ('a, 'c) criterion \<Rightarrow> 'c \<Rightarrow> ('a::zero, 'c) lhs" where
  "allocated d n cr c =
     \<lparr>dist_object = d, criterion = cr, crit_state = c, samples_number = n,
      samples = alloc_samples d n, samplesU01 = zeros_like (alloc_samples d n)\<rparr>"

text \<open>
  \<open>__init__\<close> (lines 13-61). \<open>@beartype\<close> checks \<open>distributions\<close> and \<open>samples_number\<close>
  (the elements of a list are taken to be distributions). \<open>samples_number\<close> is then never
  \<open>None\<close>, so line 61 always invokes \<open>run\<close>; an exception of \<open>run\<close> leaves no engine.
\<close>

definition LatinHypercubeSampling ::
  "'a dist_object py_arg \<Rightarrow> int py_arg \<Rightarrow> ('a, 'c) criterion \<Rightarrow> 'c \<Rightarrow> error + ('a::zero, 'c) lhs" where
  "LatinHypercubeSampling distributions n cr c =
     (case distributions of
        IllTyped \<Rightarrow> Inl BeartypeViolation
      | WellTyped d \<Rightarrow>
          (case n of
             IllTyped \<Rightarrow> Inl BeartypeViolation
           | WellTyped k \<Rightarrow>
               if k \<le> 0 then Inl BeartypeViolation
               else (case run k (allocated d k cr c) of
                       (Some err, _) \<Rightarrow> Inl err
                     | (None, e) \<Rightarrow> Inr e)))"

section \<open>JointCopula\<close>

subsection \<open>Objects and references\<close>

text \<open>
  A marginal or a copula, as \<open>JointCopula\<close> reads it: its class, the names for which
  \<open>hasattr\<close> holds, and its \<open>ordered_parameters\<close> and \<open>parameters\<close>. A dictionary is an
  association list in insertion order; \<open>d[k] = v\<close> is \<open>AList.update k v d\<close>.
\<close>

datatype py_class = DistributionContinuous1D | DistributionDiscrete1D | DistributionND | Copula

record 'v param_object =
  cls :: py_class
  attrs :: "string list"
  ordered_parameters :: "string list"
  parameters :: "(string \<times> 'v) list"

definition hasattr :: "'v param_object \<Rightarrow> string \<Rightarrow> bool" where
  "hasattr obj name \<longleftrightarrow> name \<in> set (attrs obj)"

text \<open>
  The list \<open>marginals\<close> holds references: one object may stand at several indices, and
  \<open>update_parameters\<close> mutates the object. The store maps a reference to its object. The
  copula is a \<open>Copula\<close>, never one of the marginals, and is held by value.
\<close>

type_synonym 'v store = "nat \<Rightarrow> 'v param_object"

record 'v joint_copula =
  self_ordered_parameters :: "string list"
  marginals :: "nat list"
  copula :: "'v param_object"
  bound_methods :: "string list"

subsection \<open>Strings\<close>

text \<open>\<open>str(i)\<close> of a non-negative integer: its decimal digits.\<close>

definition digit :: "nat \<Rightarrow> char" where
  "digit d = ''0123456789'' ! d"

fun str :: "nat \<Rightarrow> string" where
  "str n = (if n < 10 then [digit n] else str (n div 10) @ [digit (n mod 10)])"

declare str.simps [simp del]

text \<open>
  \<open>int(s)\<close>, on the strings \<open>update_parameters\<close> can pass to it: a non-empty string of
  decimal digits gives its value, any other string raises ValueError (\<open>None\<close> here). Python
  also accepts a sign, surrounding blanks and other digit characters; the membership test of
  line 183 lets no such suffix reach line 190.
\<close>

definition digit_of :: "char \<Rightarrow> nat option" where
  "digit_of c =
     (let k = (of_char c :: nat) in if 48 \<le> k \<and> k \<le> 57 then Some (k - 48) else None)"

definition int_of_str :: "string \<Rightarrow> nat option" where
  "int_of_str s =
     (case those (map digit_of s) of
        None \<Rightarrow> None
      | Some [] \<Rightarrow> None
      | Some ds \<Rightarrow> Some (foldl (\<lambda>a d. 10 * a + d) 0 ds))"

text \<open>\<open>s.split(sep)\<close> for a separator of one character: never the empty list.\<close>

fun split :: "char \<Rightarrow> string \<Rightarrow> string list" where
  "split sep [] = [[]]"
| "split sep (c # cs) =
     (if c = sep then [] # split sep cs
      else (c # hd (split sep cs)) # tl (split sep cs))"

text \<open>\<open>sep.join(xs)\<close>.\<close>

fun join :: "string \<Rightarrow> string list \<Rightarrow> string" where
  "join sep [] = []"
| "join sep [x] = x"
| "join sep (x # y # ys) = x @ sep @ join sep (y # ys)"

subsection \<open>The constructor\<close>

text \<open>Lines 46-53: \<open>key + "_" + str(i)\<close> for every marginal, then \<open>key + "_c"\<close>.\<close>

fun indexed_names :: "nat \<Rightarrow> string list list \<Rightarrow> string list" where
  "indexed_names i [] = []"
| "indexed_names i (keys # rest) =
     map (\<lambda>key. key @ ''_'' @ str i) keys @ indexed_names (Suc i) rest"

text \<open>
  \<open>__init__\<close> (lines 39-141). \<open>Copula.check_marginals\<close> is not part of these files and is a
  parameter (\<open>Some err\<close> when it raises). \<open>@beartype\<close> rejects a \<open>copula\<close> that is no
  \<open>Copula\<close>; of \<open>marginals\<close> it samples one element, and a list it rejects holds an element
  that line 60 rejects as well, so the model lets line 64 speak for both. The methods bound
  to the instance (lines 91, 116, 141) are recorded by name.
\<close>

definition JointCopula ::
  "('v param_object list \<Rightarrow> error option) \<Rightarrow> 'v store \<Rightarrow> nat list \<Rightarrow> 'v param_object
     \<Rightarrow> error + 'v joint_copula" where
  "JointCopula check_marginals h ms c =
     (if cls c \<noteq> Copula then Inl BeartypeViolation
      else if \<not> list_all (\<lambda>d. cls d = DistributionContinuous1D \<or> cls d = DistributionDiscrete1D)
                 (map h ms)
        then Inl ValueError
      else if cls c \<noteq> Copula then Inl ValueError
      else if \<not> list_all (\<lambda>m. hasattr m ''cdf'') (map h ms) then Inl ValueError
      else case check_marginals (map h ms) of
        Some err \<Rightarrow> Inl err
      | None \<Rightarrow>
          Inr \<lparr>self_ordered_parameters =
                 indexed_names 0 (map (\<lambda>a. ordered_parameters (h a)) ms)
                 @ map (\<lambda>key. key @ ''_c'') (ordered_parameters c),
               marginals = ms,
               copula = c,
               bound_methods =
                 (if hasattr c ''evaluate_cdf'' then [''cdf''] else [])
                 @ (if list_all (\<lambda>m. hasattr m ''pdf'') (map h ms) \<and> hasattr c ''evaluate_pdf''
                    then [''pdf''] else [])
                 @ (if list_all (\<lambda>m. hasattr m ''log_pdf'') (map h ms) \<and> hasattr c ''evaluate_pdf''
                    then [''log_pdf''] else [])\<rparr>)"

subsection \<open>get_parameters and update_parameters\<close>

text \<open>
  Modelled from the spec: \<open>get_parameters\<close> of a marginal and of the copula belongs to
  their base classes, which are not part of these files; it returns the object's
  \<open>parameters\<close> dictionary, where the parameters are stored (class docstring, lines 31-35).
\<close>

definition object_get_parameters :: "'v param_object \<Rightarrow> (string \<times> 'v) list" where
  "object_get_parameters obj = parameters obj"

text \<open>Lines 158-160, from marginal \<open>i\<close> on, inserting into \<open>params\<close>.\<close>

fun marginal_items ::
  "'v store \<Rightarrow> nat \<Rightarrow> nat list \<Rightarrow> (string \<times> 'v) list \<Rightarrow> (string \<times> 'v) list" where
  "marginal_items h i [] params = params"
| "marginal_items h i (a # ms) params =
     marginal_items h (Suc i) ms
       (foldl (\<lambda>p (key, value). AList.update (key @ ''_'' @ str i) value p) params
          (object_get_parameters (h a)))"

definition get_parameters :: "'v store \<Rightarrow> 'v joint_copula \<Rightarrow> (string \<times> 'v) list" where
  "get_parameters h jc =
     foldl (\<lambda>p (key, value). AList.update (key @ ''_c'') value p)
       (marginal_items h 0 (marginals jc) [])
       (object_get_parameters (copula jc))"

text \<open>
  Lines 182-190, the loop over the keyword arguments, with \<open>all_keys\<close> taken once before it
  (line 180). An exception leaves the assignments made before it.
\<close>

fun update_loop ::
  "string list \<Rightarrow> (string \<times> 'v) list \<Rightarrow> 'v store \<Rightarrow> 'v joint_copula
     \<Rightarrow> error option \<times> 'v store \<times> 'v joint_copula" where
  "update_loop all_keys [] h jc = (None, h, jc)"
| "update_loop all_keys ((key_indexed, value) # kwargs) h jc =
     (if key_indexed \<notin> set all_keys then (Some ValueError, h, jc)
      else
        let key_split = split CHR ''_'' key_indexed;
            key = join ''_'' (butlast key_split);
            index = last key_split
        in if index = ''c''
           then update_loop all_keys kwargs h
                  (jc\<lparr>copula := (copula jc)\<lparr>parameters :=
                         AList.update key value (parameters (copula jc))\<rparr>\<rparr>)
           else (case int_of_str index of
                   None \<Rightarrow> (Some ValueError, h, jc)
                 | Some i \<Rightarrow>
                     if length (marginals jc) \<le> i then (Some IndexError, h, jc)
                     else update_loop all_keys kwargs
                            (h((marginals jc ! i) := (h (marginals jc ! i))\<lparr>parameters :=
                                 AList.update key value (parameters (h (marginals jc ! i)))\<rparr>))
                            jc))"

definition update_parameters ::
  "(string \<times> 'v) list \<Rightarrow> 'v store \<Rightarrow> 'v joint_copula
     \<Rightarrow> error option \<times> 'v store \<times> 'v joint_copula" where
  "update_parameters kwargs h jc = update_loop (map fst (get_parameters h jc)) kwargs h jc"

section \<open>MLE\<close>

subsection \<open>Collaborators\<close>

text \<open>
  Parameter vectors are lists over \<open>'a\<close>, log-likelihood values are taken in \<open>'s\<close>, the data
  in \<open>'d\<close>. The inference model, its distribution object, the optimizer and
  \<open>Uniform().rvs\<close> are not part of these files: they are parameters, functions that may
  raise and that thread the state \<open>'w\<close> of everything outside the \<open>MLE\<close> object (the
  random generator, the distribution's own parameters, the optimizer's internals).
\<close>

record ('a, 'd, 'w) distributions_object =
  dist_update_parameters :: "(string \<times> 'a option) list \<Rightarrow> 'w \<Rightarrow> error option \<times> 'w"
  fit :: "('d option \<Rightarrow> 'w \<Rightarrow> (error + (string \<times> 'a) list) \<times> 'w) option"

text \<open>
  \<open>inference_model.distributions\<close>: the attribute may be missing, \<open>None\<close>, or an object,
  whose \<open>fit\<close> is \<open>None\<close> when \<open>hasattr(distributions, "fit")\<close> fails.
\<close>

datatype ('a, 'd, 'w) distributions_attr =
  NoAttribute | NoneValue | Object "('a, 'd, 'w) distributions_object"

record ('a, 'd, 's, 'w) inference_model_object =
  n_parameters :: nat
  list_params :: "string list"
  distributions :: "('a, 'd, 'w) distributions_attr"
  evaluate_log_likelihood :: "'a list \<Rightarrow> 'd option \<Rightarrow> error + 's"

text \<open>\<open>optimize\<close> returns \<open>(res.x, res.fun)\<close>.\<close>

record ('a, 's, 'w) optimizer_object =
  bounds :: "('a \<times> 'a) list option"
  optimize :: "('a list \<Rightarrow> error + 's) \<Rightarrow> 'a list \<Rightarrow> 'w \<Rightarrow> (error + ('a list \<times> 's)) \<times> 'w"

text \<open>\<open>initial_parameters\<close>, when given: an array of one or of two dimensions.\<close>

datatype 'a initial_guess = Guess1D "'a list" | Guess2D "'a matrix"

record ('a, 'd, 's, 'w) mle_object =
  inference_model :: "('a, 'd, 's, 'w) inference_model_object"
  data :: "'d option"
  optimizer :: "('a, 's, 'w) optimizer_object"
  mle :: "'a list option"
  max_log_like :: "'s option"
  n_optimizations :: "int option"
  initial_parameters :: "'a initial_guess option"

subsection \<open>Saving a result\<close>

text \<open>
  Lines 102-104 and 126-128. \<open>or\<close> does not evaluate the comparison when \<open>self.mle\<close> is
  \<open>None\<close>; comparing with a \<open>max_log_like\<close> that is \<open>None\<close> raises TypeError.
\<close>

definition save_result ::
  "'a list \<Rightarrow> 's \<Rightarrow> ('a, 'd, 's::ord, 'w) mle_object \<Rightarrow> error + ('a, 'd, 's, 'w) mle_object" where
  "save_result mle_tmp max_log_like_tmp obj =
     (if mle obj = None
      then Inr (obj\<lparr>mle := Some mle_tmp, max_log_like := Some max_log_like_tmp\<rparr>)
      else case max_log_like obj of
        None \<Rightarrow> Inl TypeError
      | Some cur \<Rightarrow>
          if max_log_like_tmp > cur
          then Inr (obj\<lparr>mle := Some mle_tmp, max_log_like := Some max_log_like_tmp\<rparr>)
          else Inr obj)"

subsection \<open>The optimization path\<close>

text \<open>Lines 131-134.\<close>

definition evaluate_func_to_minimize ::
  "('a, 'd, 's::uminus, 'w) mle_object \<Rightarrow> 'a list \<Rightarrow> error + 's" where
  "evaluate_func_to_minimize obj one_param =
     (case evaluate_log_likelihood (inference_model obj) one_param (data obj) of
        Inl err \<Rightarrow> Inl err
      | Inr l \<Rightarrow> Inr (- l))"

text \<open>
  \<open>.reshape((n, p))\<close> of a flat array: \<open>n\<close> rows of \<open>p\<close> entries when the sizes agree; a
  row count of \<open>-1\<close> is inferred; ValueError otherwise.
\<close>

definition rows_of :: "nat \<Rightarrow> nat \<Rightarrow> 'a list \<Rightarrow> 'a list list" where
  "rows_of k p us = map (\<lambda>i. take p (drop (i * p) us)) [0..<k]"

definition reshape :: "int \<Rightarrow> nat \<Rightarrow> 'a list \<Rightarrow> error + 'a list list" where
  "reshape n p us =
     (if 0 \<le> n then (if length us = nat n * p then Inr (rows_of (nat n) p us) else Inl ValueError)
      else if n = - 1 \<and> 0 < p \<and> length us mod p = 0 then Inr (rows_of (length us div p) p us)
      else Inl ValueError)"

text \<open>
  Lines 114-116: \<open>lo + (hi - lo) * u\<close> with numpy's broadcasting of the bounds (one row
  of \<open>length b\<close> entries) against the rows of \<open>p\<close> entries.
\<close>

definition scale_to_bounds ::
  "('a \<times> 'a) list \<Rightarrow> nat \<Rightarrow> ('a::{plus,minus,times}) list list \<Rightarrow> error + 'a list list" where
  "scale_to_bounds b p rows =
     (if length b = p
      then Inr (map (\<lambda>row. map (\<lambda>((lo, hi), u). lo + (hi - lo) * u) (zip b row)) rows)
      else if length b = 1
      then Inr (map (\<lambda>row. map (\<lambda>u. fst (hd b) + (snd (hd b) - fst (hd b)) * u) row) rows)
      else if p = 1
      then Inr (map (\<lambda>row. map (\<lambda>(lo, hi). lo + (hi - lo) * hd row) b) rows)
      else Inl ValueError)"

text \<open>
  Lines 107-120: the starting points, one per row. \<open>uniform_rvs k\<close> stands for
  \<open>Uniform().rvs(nsamples=k, random_state=self.random_state)\<close>.
\<close>

definition starting_points ::
  "(int \<Rightarrow> 'w \<Rightarrow> (error + 'a list) \<times> 'w) \<Rightarrow> ('a::{plus,minus,times}, 'd, 's, 'w) mle_object \<Rightarrow> 'w
     \<Rightarrow> (error + 'a list list) \<times> 'w" where
  "starting_points uniform_rvs obj w =
     (case initial_parameters obj of
        None \<Rightarrow>
          (case n_optimizations obj of
             None \<Rightarrow> (Inl TypeError, w)
           | Some n \<Rightarrow>
               (case uniform_rvs (n * int (n_parameters (inference_model obj))) w of
                  (Inl err, w1) \<Rightarrow> (Inl err, w1)
                | (Inr us, w1) \<Rightarrow>
                    (case reshape n (n_parameters (inference_model obj)) us of
                       Inl err \<Rightarrow> (Inl err, w1)
                     | Inr rows \<Rightarrow>
                         (case bounds (optimizer obj) of
                            None \<Rightarrow> (Inr rows, w1)
                          | Some b \<Rightarrow>
                              (scale_to_bounds b (n_parameters (inference_model obj)) rows, w1)))))
      | Some (Guess1D v) \<Rightarrow>
          if length v \<noteq> n_parameters (inference_model obj) then (Inl ValueError, w)
          else (Inr [v], w)
      | Some (Guess2D M) \<Rightarrow>
          if ncols M \<noteq> n_parameters (inference_model obj) then (Inl ValueError, w)
          else (Inr (cells M), w))"

text \<open>Lines 121-128: one call of the optimizer per starting point.\<close>

fun optimize_starts ::
  "'a list list \<Rightarrow> ('a, 'd, 's::{uminus,ord}, 'w) mle_object \<Rightarrow> 'w
     \<Rightarrow> error option \<times> ('a, 'd, 's, 'w) mle_object \<times> 'w" where
  "optimize_starts [] obj w = (None, obj, w)"
| "optimize_starts (x0 # rest) obj w =
     (case optimize (optimizer obj) (evaluate_func_to_minimize obj) x0 w of
        (Inl err, w1) \<Rightarrow> (Some err, obj, w1)
      | (Inr (res_x, res_fun), w1) \<Rightarrow>
          (case save_result res_x (- res_fun) obj of
             Inl err \<Rightarrow> (Some err, obj, w1)
           | Inr obj1 \<Rightarrow> optimize_starts rest obj1 w1))"

definition run_optimization ::
  "(int \<Rightarrow> 'w \<Rightarrow> (error + 'a list) \<times> 'w)
     \<Rightarrow> ('a::{plus,minus,times}, 'd, 's::{uminus,ord}, 'w) mle_object \<Rightarrow> 'w
     \<Rightarrow> error option \<times> ('a, 'd, 's, 'w) mle_object \<times> 'w" where
  "run_optimization uniform_rvs obj w =
     (case starting_points uniform_rvs obj w of
        (Inl err, w1) \<Rightarrow> (Some err, obj, w1)
      | (Inr rows, w1) \<Rightarrow> optimize_starts rows obj w1)"

subsection \<open>The closed-form path\<close>

text \<open>Line 96: the dictionary \<open>{key: None for key in list_params}\<close>.\<close>

definition none_parameters :: "string list \<Rightarrow> (string \<times> 'a option) list" where
  "none_parameters keys = foldl (\<lambda>d key. AList.update key None d) [] keys"

text \<open>Line 98: \<open>mle_dict[key]\<close> for every key, KeyError (\<open>None\<close> here) on a missing one.\<close>

definition lookup_all :: "(string \<times> 'a) list \<Rightarrow> string list \<Rightarrow> 'a list option" where
  "lookup_all mle_dict keys = those (map (map_of mle_dict) keys)"

text \<open>Lines 94-104, \<open>k\<close> more trials.\<close>

fun fit_trials ::
  "nat \<Rightarrow> ('a, 'd, 's::ord, 'w) mle_object \<Rightarrow> 'w
     \<Rightarrow> error option \<times> ('a, 'd, 's, 'w) mle_object \<times> 'w" where
  "fit_trials 0 obj w = (None, obj, w)"
| "fit_trials (Suc k) obj w =
     (case distributions (inference_model obj) of
        Object dist \<Rightarrow>
          (case dist_update_parameters dist
                  (none_parameters (list_params (inference_model obj))) w of
             (Some err, w1) \<Rightarrow> (Some err, obj, w1)
           | (None, w1) \<Rightarrow>
               (case fit dist of
                  None \<Rightarrow> (Some AttributeError, obj, w1)
                | Some f \<Rightarrow>
                    (case f (data obj) w1 of
                       (Inl err, w2) \<Rightarrow> (Some err, obj, w2)
                     | (Inr mle_dict, w2) \<Rightarrow>
                         (case lookup_all mle_dict (list_params (inference_model obj)) of
                            None \<Rightarrow> (Some KeyError, obj, w2)
                          | Some mle_tmp \<Rightarrow>
                              (case evaluate_log_likelihood (inference_model obj) mle_tmp
                                      (data obj) of
                                 Inl err \<Rightarrow> (Some err, obj, w2)
                               | Inr max_log_like_tmp \<Rightarrow>
                                   (case save_result mle_tmp max_log_like_tmp obj of
                                      Inl err \<Rightarrow> (Some err, obj, w2)
                                    | Inr obj1 \<Rightarrow> fit_trials k obj1 w2))))))
      | _ \<Rightarrow> (Some AttributeError, obj, w))"

text \<open>Line 94: \<open>range(None)\<close> raises TypeError, a negative count gives no trial.\<close>

definition run_distribution_fit ::
  "('a, 'd, 's::ord, 'w) mle_object \<Rightarrow> 'w \<Rightarrow> error option \<times> ('a, 'd, 's, 'w) mle_object \<times> 'w" where
  "run_distribution_fit obj w =
     (case n_optimizations obj of
        None \<Rightarrow> (Some TypeError, obj, w)
      | Some n \<Rightarrow> fit_trials (nat n) obj w)"

subsection \<open>run\<close>

definition use_distribution_fit :: "('a, 'd, 's, 'w) mle_object \<Rightarrow> bool" where
  "use_distribution_fit obj =
     (case distributions (inference_model obj) of
        Object dist \<Rightarrow> fit dist \<noteq> None
      | _ \<Rightarrow> False)"

text \<open>Lines 64-91. The exception, if any, comes with the object as the call leaves it.\<close>

definition MLE_run ::
  "(int \<Rightarrow> 'w \<Rightarrow> (error + 'a list) \<times> 'w) \<Rightarrow> 'd
     \<Rightarrow> ('a::{plus,minus,times}, 'd, 's::{uminus,ord}, 'w) mle_object \<Rightarrow> 'w
     \<Rightarrow> error option \<times> ('a, 'd, 's, 'w) mle_object \<times> 'w" where
  "MLE_run uniform_rvs d obj w =
     (let obj1 = obj\<lparr>data := Some d\<rparr> in
      if use_distribution_fit obj1 then run_distribution_fit obj1 w
      else run_optimization uniform_rvs obj1 w)"

text \<open>
  \<open>__init__\<close> (lines 17-62): \<open>mle\<close> and \<open>max_log_like\<close> start as \<open>None\<close>, and \<open>run\<close> is
  invoked when data is given.
\<close>

definition MLE ::
  "(int \<Rightarrow> 'w \<Rightarrow> (error + 'a list) \<times> 'w) \<Rightarrow> ('a, 'd, 's, 'w) inference_model_object
     \<Rightarrow> int option \<Rightarrow> 'a initial_guess option \<Rightarrow> 'd option \<Rightarrow> ('a, 's, 'w) optimizer_object \<Rightarrow> 'w
     \<Rightarrow> error option \<times> ('a::{plus,minus,times}, 'd, 's::{uminus,ord}, 'w) mle_object \<times> 'w" where
  "MLE uniform_rvs model n x0 d opt w =
     (let obj = \<lparr>inference_model = model, data = d, optimizer = opt, mle = None,
                 max_log_like = None, n_optimizations = n, initial_parameters = x0\<rparr>
      in case d of
           None \<Rightarrow> (None, obj, w)
         | Some d' \<Rightarrow> MLE_run uniform_rvs d' obj w)"

subsection \<open>The values a run observes\<close>





subsection \<open>Auxiliary notions for the properties of JointCopula\<close>

text \<open>
  The items \<open>get_parameters\<close> is expected to list for the marginals from index \<open>i\<close> on,
  written without the dictionary: every parameter of every marginal under its suffixed name.
\<close>

fun expected_items :: "'v store \<Rightarrow> nat \<Rightarrow> nat list \<Rightarrow> (string \<times> 'v) list" where
  "expected_items h i [] = []"
| "expected_items h i (a # ms) =
     map (\<lambda>(key, value). (key @ ''_'' @ str i, value)) (parameters (h a))
     @ expected_items h (Suc i) ms"

text \<open>An item names a parameter and carries the value that parameter already has.\<close>

definition current_item :: "'v store \<Rightarrow> 'v joint_copula \<Rightarrow> string \<times> 'v \<Rightarrow> bool" where
  "current_item h jc item \<longleftrightarrow>
     (\<exists>key. fst item = key @ ''_c'' \<and> map_of (parameters (copula jc)) key = Some (snd item))
     \<or> (\<exists>key i. fst item = key @ ''_'' @ str i \<and> i < length (marginals jc)
           \<and> map_of (parameters (h (marginals jc ! i))) key = Some (snd item))"

text \<open>
  A store of three objects and a joint of the first two, with parameter names that contain
  the separator and end like a suffix.
\<close>

definition marginal_a :: "int param_object" where
  "marginal_a = \<lparr>cls = DistributionContinuous1D, attrs = [''cdf'', ''pdf'', ''log_pdf''],
     ordered_parameters = [''loc'', ''scale''], parameters = [(''loc'', 0), (''scale'', 1)]\<rparr>"

definition marginal_b :: "int param_object" where
  "marginal_b = \<lparr>cls = DistributionContinuous1D, attrs = [''cdf'', ''pdf''],
     ordered_parameters = [''a_1'', ''b_c''], parameters = [(''a_1'', 2), (''b_c'', 3)]\<rparr>"

definition marginal_c :: "int param_object" where
  "marginal_c = \<lparr>cls = DistributionDiscrete1D, attrs = [''pmf''],
     ordered_parameters = [''p''], parameters = [(''p'', 4)]\<rparr>"

definition copula_g :: "int param_object" where
  "copula_g = \<lparr>cls = Copula, attrs = [''evaluate_cdf''],
     ordered_parameters = [''theta_0''], parameters = [(''theta_0'', 5)]\<rparr>"

definition example_store :: "int store" where
  "example_store a = (if a = 0 then marginal_a else if a = 1 then marginal_b else marginal_c)"

definition example_joint :: "int joint_copula" where
  "example_joint = \<lparr>self_ordered_parameters = [''loc_0'', ''scale_0'', ''a_1_1'', ''b_c_1'', ''theta_0_c''],
     marginals = [0, 1], copula = copula_g, bound_methods = [''cdf'']\<rparr>"

lemmas example_defs = marginal_a_def marginal_b_def marginal_c_def copula_g_def
  example_store_def example_joint_def

subsection \<open>Auxiliary notions for the properties of LatinHypercubeSampling\<close>



text \<open>
  Modelled from the spec: a criterion of that interface, used to run the engine on concrete
  inputs. \<open>create_bins\<close> keeps the shape (and raises on \<open>None\<close>, which has no shape);
  \<open>generate_samples\<close> numbers the cells of a matrix of that shape from 1, row by row.
\<close>

definition counting_criterion :: "(int, nat \<times> nat) criterion" where
  "counting_criterion =
     \<lparr>create_bins = (\<lambda>a c. case a of
          Array2D M \<Rightarrow> (None, (nrows M, ncols M))
        | _ \<Rightarrow> (Some AttributeError, c)),
      generate_samples = (\<lambda>(n, d).
        (Inr \<lparr>nrows = n, ncols = d,
              cells = map (\<lambda>i. map (\<lambda>j. int (i * d + j) + 1) [0..<d]) [0..<n]\<rparr>,
         (n, d)))\<rparr>"

text \<open>
  Three distributions: one whose \<open>icdf\<close> returns its argument, one whose \<open>icdf\<close> raises,
  one without \<open>icdf\<close>; and the engine that lines 42-57 allocate for \<open>samples_number = 2\<close>.
\<close>

definition identity_icdf :: "int icdf_method" where
  "identity_icdf = \<lparr>on_column = Inr, on_matrix = Inr\<rparr>"

definition raising_icdf :: "int icdf_method" where
  "raising_icdf = \<lparr>on_column = (\<lambda>u. Inl ValueError), on_matrix = (\<lambda>u. Inl ValueError)\<rparr>"

definition with_identity :: "int distribution" where
  "with_identity = \<lparr>icdf = Some identity_icdf\<rparr>"

definition with_raising :: "int distribution" where
  "with_raising = \<lparr>icdf = Some raising_icdf\<rparr>"

definition without_icdf :: "int distribution" where
  "without_icdf = \<lparr>icdf = None\<rparr>"

definition engine_of :: "int dist_object \<Rightarrow> (int, nat \<times> nat) lhs" where
  "engine_of d = allocated d 2 counting_criterion (0, 0)"

lemmas lhs_example_defs = counting_criterion_def identity_icdf_def raising_icdf_def
  with_identity_def with_raising_def without_icdf_def engine_of_def

lemmas lhs_eval = run_def transform_def assign_column_def broadcast_column_def set_column_def
  column_def allocated_def alloc_samples_def zeros_like_def zeros_def LatinHypercubeSampling_def
  shape_def wf_matrix_def

subsection \<open>Auxiliary notions for the properties of MLE\<close>







section \<open>Properties of LatinHypercubeSampling\<close>

subsection \<open>Columns, loops and the examples\<close>











lemma upt_two: "[0..<2] = [0, 1]"
  by (simp add: numeral_2_eq_2 upt_rec)

lemma replicate_two: "replicate 2 x = [x, x]"
  by (simp add: numeral_2_eq_2)

lemmas lhs_lists = upt_two replicate_two


















subsection \<open>The shape after a run\<close>

text \<open>
  C1, the code at a concrete input. An engine over one distribution is constructed with
  \<open>samples_number = 2\<close> and a criterion that returns a matrix of the shape it was given.
  \<open>run(3)\<close> then succeeds and stores \<open>samples_number = 3\<close>, and both matrices still have
  shape \<open>(2, 1)\<close>: line 82 hands the matrix of the constructor to \<open>create_bins\<close>, and no
  line of \<open>run\<close> allocates one of the new size.
\<close>

theorem run_keeps_constructed_shape:
  "\<exists>e e' M U.
     LatinHypercubeSampling (WellTyped (DistList [with_identity])) (WellTyped 2)
        counting_criterion (0, 0) = Inr e
     \<and> run 3 e = (None, e')
     \<and> samples_number e' = 3
     \<and> samples e' = Array2D M \<and> shape M = (2, 1)
     \<and> samplesU01 e' = Array2D U \<and> shape U = (2, 1)"
proof -
  let ?e = "(engine_of (DistList [with_identity]))
          \<lparr>crit_state := (2, 1),
           samples := Array2D \<lparr>nrows = 2, ncols = 1, cells = [[1], [2]]\<rparr>,
           samplesU01 := Array2D \<lparr>nrows = 2, ncols = 1, cells = [[1], [2]]\<rparr>\<rparr>"
  have c: "LatinHypercubeSampling (WellTyped (DistList [with_identity])) (WellTyped 2)
        counting_criterion (0, 0) = Inr ?e"
    by (simp add: lhs_eval lhs_example_defs lhs_lists)
  have r: "run 3 ?e = (None, ?e\<lparr>samples_number := 3\<rparr>)"
    by (simp add: lhs_eval lhs_example_defs lhs_lists)
  have "samples_number (?e\<lparr>samples_number := 3\<rparr>) = 3
     \<and> samples (?e\<lparr>samples_number := 3\<rparr>)
         = Array2D \<lparr>nrows = 2, ncols = 1, cells = [[1], [2]]\<rparr>
     \<and> shape \<lparr>nrows = 2, ncols = 1, cells = [[1], [2::int]]\<rparr> = (2, 1)
     \<and> samplesU01 (?e\<lparr>samples_number := 3\<rparr>)
         = Array2D \<lparr>nrows = 2, ncols = 1, cells = [[1], [2]]\<rparr>"
    by (simp add: shape_def)
  with c r show ?thesis by blast
qed

subsection \<open>The columns after a run\<close>




subsection \<open>The state after a run that raised\<close>




subsection \<open>The constructor\<close>






subsection \<open>Row correspondence\<close>




section \<open>Properties of JointCopula\<close>

subsection \<open>Strings and dictionaries\<close>

lemma lt10_cases: "d < (10::nat) \<Longrightarrow> d \<in> {0,1,2,3,4,5,6,7,8,9}"
  by auto

lemma digit_of_digit: "d < 10 \<Longrightarrow> digit_of (digit d) = Some d"
  by (drule lt10_cases) (auto simp: digit_of_def digit_def Let_def)

lemma digit_not_sep: "d < 10 \<Longrightarrow> digit d \<noteq> CHR ''_''"
  by (drule lt10_cases) (auto simp: digit_def)

lemma digit_not_c: "d < 10 \<Longrightarrow> digit d \<noteq> CHR ''c''"
  by (drule lt10_cases) (auto simp: digit_def)

lemma sep_notin_str: "CHR ''_'' \<notin> set (str n)"
proof (induction n rule: str.induct)
  case (1 n)
  show ?case
  proof (cases "n < 10")
    case True
    then show ?thesis using digit_not_sep[of n] by (subst str.simps) auto
  next
    case False
    then have "CHR ''_'' \<notin> set (str (n div 10))" using 1 by simp
    moreover have "digit (n mod 10) \<noteq> CHR ''_''" by (simp add: digit_not_sep)
    ultimately show ?thesis using False by (subst str.simps) auto
  qed
qed

lemma str_not_c: "str n \<noteq> ''c''"
proof
  assume a: "str n = ''c''"
  show False
  proof (cases "n < 10")
    case True
    then show ?thesis using a digit_not_c[of n] by (simp add: str.simps)
  next
    case False
    then have "str n = str (n div 10) @ [digit (n mod 10)]" by (subst str.simps) simp
    with a have "digit (n mod 10) = CHR ''c''"
      by (metis last_snoc last.simps)
    then show ?thesis using digit_not_c[of "n mod 10"] by simp
  qed
qed

lemma those_snoc:
  "those (xs @ [x]) =
     (case those xs of None \<Rightarrow> None
      | Some ys \<Rightarrow> (case x of None \<Rightarrow> None | Some y \<Rightarrow> Some (ys @ [y])))"
  by (induction xs) (auto split: option.splits)

lemma those_digits_str:
  "\<exists>ds. those (map digit_of (str n)) = Some ds \<and> ds \<noteq> [] \<and> foldl (\<lambda>a d. 10 * a + d) 0 ds = n"
proof (induction n rule: str.induct)
  case (1 n)
  show ?case
  proof (cases "n < 10")
    case True
    then show ?thesis by (subst str.simps) (simp add: digit_of_digit)
  next
    case False
    then obtain ds where ds: "those (map digit_of (str (n div 10))) = Some ds" "ds \<noteq> []"
      "foldl (\<lambda>a d. 10 * a + d) 0 ds = n div 10" using 1 by auto
    have s: "str n = str (n div 10) @ [digit (n mod 10)]" using False by (subst str.simps) simp
    have "those (map digit_of (str n)) = Some (ds @ [n mod 10])"
      by (simp add: s those_snoc ds digit_of_digit)
    moreover have "foldl (\<lambda>a d. 10 * a + d) 0 (ds @ [n mod 10]) = n"
      using ds(3) by simp
    ultimately show ?thesis by blast
  qed
qed

lemma int_of_str_str: "int_of_str (str n) = Some n"
proof -
  obtain ds where "those (map digit_of (str n)) = Some ds" "ds \<noteq> []"
    "foldl (\<lambda>a d. 10 * a + d) 0 ds = n" using those_digits_str by blast
  then show ?thesis by (cases ds) (simp_all add: int_of_str_def)
qed

lemma str_inj: "str m = str n \<Longrightarrow> m = n"
  by (metis int_of_str_str option.inject)

lemma split_nonempty: "split sep s \<noteq> []"
  by (induction s) auto

lemma split_append_sep:
  "sep \<notin> set suf \<Longrightarrow> split sep (k @ sep # suf) = split sep k @ [suf]"
proof (induction k)
  case Nil
  have "split sep suf = [suf]" using Nil by (induction suf) auto
  then show ?case by simp
next
  case (Cons c k)
  then show ?case using split_nonempty[of sep k] by (cases "split sep k") auto
qed

lemma join_split: "join [sep] (split sep s) = s"
proof (induction s)
  case Nil
  then show ?case by simp
next
  case (Cons c s)
  show ?case
  proof (cases "c = sep")
    case True
    then show ?thesis using Cons split_nonempty[of sep s] by (cases "split sep s") auto
  next
    case False
    obtain w ws where w: "split sep s = w # ws"
      using split_nonempty[of sep s] by (cases "split sep s") auto
    then show ?thesis using Cons False by (cases ws) auto
  qed
qed

text \<open>Lines 185-186 on a name whose suffix is free of the separator.\<close>

lemma parse_suffixed:
  assumes "CHR ''_'' \<notin> set suf"
  shows "join ''_'' (butlast (split CHR ''_'' (key @ ''_'' @ suf))) = key"
    and "last (split CHR ''_'' (key @ ''_'' @ suf)) = suf"
  using assms split_append_sep[of "CHR ''_''" suf key] join_split[of "CHR ''_''" key]
  by simp_all

lemma parse_marginal:
  "join ''_'' (butlast (split CHR ''_'' (key @ ''_'' @ str i))) = key"
  "last (split CHR ''_'' (key @ ''_'' @ str i)) = str i"
  using parse_suffixed[OF sep_notin_str] by blast+

lemma parse_copula:
  "join ''_'' (butlast (split CHR ''_'' (key @ ''_c''))) = key"
  "last (split CHR ''_'' (key @ ''_c'')) = ''c''"
  using parse_suffixed[of "''c''" key] by simp_all

lemma update_fresh: "k \<notin> fst ` set al \<Longrightarrow> AList.update k v al = al @ [(k, v)]"
  by (induction al) auto

lemma foldl_update_fresh:
  assumes "distinct (map fst kvs)" "inj f" "\<forall>k\<in>fst ` set kvs. f k \<notin> fst ` set params"
  shows "foldl (\<lambda>p (key, value). AList.update (f key) value p) params kvs
           = params @ map (\<lambda>(key, value). (f key, value)) kvs"
  using assms
proof (induction kvs arbitrary: params)
  case Nil
  then show ?case by simp
next
  case (Cons kv kvs)
  obtain k v where kv: "kv = (k, v)" by (cases kv)
  have fresh: "f k \<notin> fst ` set params" using Cons.prems(3) kv by simp
  have step: "AList.update (f k) v params = params @ [(f k, v)]"
    using fresh by (rule update_fresh)
  have "\<forall>k'\<in>fst ` set kvs. f k' \<notin> fst ` set (params @ [(f k, v)])"
  proof
    fix k' assume k': "k' \<in> fst ` set kvs"
    then have "k' \<noteq> k" using Cons.prems(1) kv by auto
    then have "f k' \<noteq> f k" using Cons.prems(2) by (auto dest: injD)
    moreover have "f k' \<notin> fst ` set params" using Cons.prems(3) k' by auto
    ultimately show "f k' \<notin> fst ` set (params @ [(f k, v)])" by auto
  qed
  then have "foldl (\<lambda>p (key, value). AList.update (f key) value p) (params @ [(f k, v)]) kvs
           = (params @ [(f k, v)]) @ map (\<lambda>(key, value). (f key, value)) kvs"
    using Cons.IH[of "params @ [(f k, v)]"] Cons.prems(1,2) by simp
  then show ?case by (simp add: kv step)
qed


lemma suffixed_eq:
  assumes "key @ ''_'' @ str i = key' @ ''_'' @ str j"
  shows "key = key' \<and> i = j"
proof -
  have "join ''_'' (butlast (split CHR ''_'' (key @ ''_'' @ str i)))
          = join ''_'' (butlast (split CHR ''_'' (key' @ ''_'' @ str j)))"
       "last (split CHR ''_'' (key @ ''_'' @ str i)) = last (split CHR ''_'' (key' @ ''_'' @ str j))"
    using assms by simp_all
  then have "key = key'" "str i = str j" by (simp_all only: parse_marginal)
  then show ?thesis using str_inj by blast
qed

lemma suffixed_not_copula: "key @ ''_'' @ str i \<noteq> key' @ ''_c''"
proof
  assume "key @ ''_'' @ str i = key' @ ''_c''"
  then have "last (split CHR ''_'' (key @ ''_'' @ str i)) = last (split CHR ''_'' (key' @ ''_c''))"
    by simp
  then have "str i = ''c''" by (simp only: parse_marginal parse_copula)
  then show False using str_not_c by blast
qed

lemma inj_suffix: "inj (\<lambda>key. key @ suf)"
  by (rule injI) simp

lemma expected_items_iff:
  "(kx, v) \<in> set (expected_items h i ms) \<longleftrightarrow>
     (\<exists>j key. j < length ms \<and> (key, v) \<in> set (parameters (h (ms ! j)))
        \<and> kx = key @ ''_'' @ str (i + j))"
proof (induction ms arbitrary: i)
  case Nil
  then show ?case by simp
next
  case (Cons a ms)
  show ?case
  proof
    assume "(kx, v) \<in> set (expected_items h i (a # ms))"
    then consider (here) "\<exists>key. (key, v) \<in> set (parameters (h a)) \<and> kx = key @ ''_'' @ str i"
      | (later) "(kx, v) \<in> set (expected_items h (Suc i) ms)"
      by auto
    then show "\<exists>j key. j < length (a # ms) \<and> (key, v) \<in> set (parameters (h ((a # ms) ! j)))
        \<and> kx = key @ ''_'' @ str (i + j)"
    proof cases
      case here
      then obtain key where "(key, v) \<in> set (parameters (h a))" "kx = key @ ''_'' @ str i" by blast
      then have "0 < length (a # ms) \<and> (key, v) \<in> set (parameters (h ((a # ms) ! 0)))
        \<and> kx = key @ ''_'' @ str (i + 0)" by simp
      then show ?thesis by blast
    next
      case later
      then obtain j key where j: "j < length ms" "(key, v) \<in> set (parameters (h (ms ! j)))"
        "kx = key @ ''_'' @ str (Suc i + j)" using Cons.IH[of "Suc i"] by blast
      then have "Suc j < length (a # ms) \<and> (key, v) \<in> set (parameters (h ((a # ms) ! Suc j)))
        \<and> kx = key @ ''_'' @ str (i + Suc j)" by simp
      then show ?thesis by blast
    qed
  next
    assume "\<exists>j key. j < length (a # ms) \<and> (key, v) \<in> set (parameters (h ((a # ms) ! j)))
        \<and> kx = key @ ''_'' @ str (i + j)"
    then obtain j key where j: "j < length (a # ms)"
      "(key, v) \<in> set (parameters (h ((a # ms) ! j)))" "kx = key @ ''_'' @ str (i + j)" by blast
    show "(kx, v) \<in> set (expected_items h i (a # ms))"
    proof (cases j)
      case 0
      then have "(key, v) \<in> set (parameters (h a))" "kx = key @ ''_'' @ str i" using j by simp_all
      then have "(kx, v) \<in> set (map (\<lambda>(key, value). (key @ ''_'' @ str i, value)) (parameters (h a)))"
        by (simp only: set_map) (rule image_eqI[where x = "(key, v)"], simp_all)
      then show ?thesis by (simp only: expected_items.simps set_append Un_iff) blast
    next
      case (Suc j')
      then have "j' < length ms \<and> (key, v) \<in> set (parameters (h (ms ! j')))
        \<and> kx = key @ ''_'' @ str (Suc i + j')" using j by simp
      then have "(kx, v) \<in> set (expected_items h (Suc i) ms)" using Cons.IH[of "Suc i"] by blast
      then show ?thesis by simp
    qed
  qed
qed


lemma expected_keys_iff:
  "kx \<in> fst ` set (expected_items h i ms) \<longleftrightarrow>
     (\<exists>j key. j < length ms \<and> key \<in> fst ` set (parameters (h (ms ! j)))
        \<and> kx = key @ ''_'' @ str (i + j))"
proof
  assume "kx \<in> fst ` set (expected_items h i ms)"
  then obtain kv where kv: "kv \<in> set (expected_items h i ms)" "kx = fst kv" by (rule imageE)
  then have "(kx, snd kv) \<in> set (expected_items h i ms)" by simp
  then obtain j key where j: "j < length ms" "(key, snd kv) \<in> set (parameters (h (ms ! j)))"
    "kx = key @ ''_'' @ str (i + j)"
    unfolding expected_items_iff[of kx "snd kv" h i ms] by blast
  from j(2) have "fst (key, snd kv) \<in> fst ` set (parameters (h (ms ! j)))" by (rule imageI)
  then have "key \<in> fst ` set (parameters (h (ms ! j)))" by simp
  with j(1,3) show "\<exists>j key. j < length ms \<and> key \<in> fst ` set (parameters (h (ms ! j)))
        \<and> kx = key @ ''_'' @ str (i + j)" by blast
next
  assume "\<exists>j key. j < length ms \<and> key \<in> fst ` set (parameters (h (ms ! j)))
        \<and> kx = key @ ''_'' @ str (i + j)"
  then obtain j key where j: "j < length ms" "key \<in> fst ` set (parameters (h (ms ! j)))"
    "kx = key @ ''_'' @ str (i + j)" by blast
  from j(2) obtain kv where kv: "kv \<in> set (parameters (h (ms ! j)))" "key = fst kv"
    by (rule imageE)
  then have "(key, snd kv) \<in> set (parameters (h (ms ! j)))" by simp
  with j(1,3) have "(kx, snd kv) \<in> set (expected_items h i ms)"
    unfolding expected_items_iff[of kx "snd kv" h i ms] by blast
  then have "fst (kx, snd kv) \<in> fst ` set (expected_items h i ms)" by (rule imageI)
  then show "kx \<in> fst ` set (expected_items h i ms)" by simp
qed



lemma marginal_items_eq:
  assumes "\<forall>a\<in>set ms. distinct (map fst (parameters (h a)))"
    and "\<forall>kx\<in>fst ` set params. \<exists>key j. j < i \<and> kx = key @ ''_'' @ str j"
  shows "marginal_items h i ms params = params @ expected_items h i ms"
  using assms
proof (induction ms arbitrary: i params)
  case Nil
  then show ?case by simp
next
  case (Cons a ms)
  let ?f = "\<lambda>key. key @ ''_'' @ str i"
  let ?new = "map (\<lambda>(key, value). (?f key, value)) (parameters (h a))"
  have fresh: "\<forall>k\<in>fst ` set (parameters (h a)). ?f k \<notin> fst ` set params"
  proof
    fix k assume "k \<in> fst ` set (parameters (h a))"
    show "?f k \<notin> fst ` set params"
    proof
      assume "?f k \<in> fst ` set params"
      then obtain key j where "j < i" "?f k = key @ ''_'' @ str j" using Cons.prems(2) by blast
      then show False using suffixed_eq[of k i key j] by simp
    qed
  qed
  have step: "foldl (\<lambda>p (key, value). AList.update (?f key) value p) params (parameters (h a))
                = params @ ?new"
  proof (rule foldl_update_fresh)
    show "distinct (map fst (parameters (h a)))" using Cons.prems(1) by simp
    show "inj ?f" by (rule inj_suffix)
    show "\<forall>k\<in>fst ` set (parameters (h a)). ?f k \<notin> fst ` set params" by (rule fresh)
  qed
  have keys': "\<forall>kx\<in>fst ` set (params @ ?new). \<exists>key j. j < Suc i \<and> kx = key @ ''_'' @ str j"
  proof
    fix kx assume "kx \<in> fst ` set (params @ ?new)"
    then have "kx \<in> fst ` set params \<or> kx \<in> fst ` set ?new"
      by (simp only: set_append image_Un Un_iff)
    then consider "kx \<in> fst ` set params" | "kx \<in> fst ` set ?new" by blast
    then show "\<exists>key j. j < Suc i \<and> kx = key @ ''_'' @ str j"
    proof cases
      case 1
      then obtain key j where "j < i" "kx = key @ ''_'' @ str j" using Cons.prems(2) by blast
      then have "j < Suc i \<and> kx = key @ ''_'' @ str j" by simp
      then show ?thesis by blast
    next
      case 2
      then obtain key where "kx = key @ ''_'' @ str i" by auto
      then have "i < Suc i \<and> kx = key @ ''_'' @ str i" by simp
      then show ?thesis by blast
    qed
  qed
  have "marginal_items h (Suc i) ms (params @ ?new) = (params @ ?new) @ expected_items h (Suc i) ms"
    using Cons.IH[OF _ keys'] Cons.prems(1) by simp
  then show ?case
    by (simp only: marginal_items.simps expected_items.simps object_get_parameters_def step
        append_assoc)
qed

lemma get_parameters_eq:
  assumes "\<forall>a\<in>set (marginals jc). distinct (map fst (parameters (h a)))"
    and "distinct (map fst (parameters (copula jc)))"
  shows "get_parameters h jc
           = expected_items h 0 (marginals jc)
             @ map (\<lambda>(key, value). (key @ ''_c'', value)) (parameters (copula jc))"
proof -
  have m: "marginal_items h 0 (marginals jc) [] = expected_items h 0 (marginals jc)"
    using marginal_items_eq[of "marginals jc" h "[]" 0] assms(1) by simp
  have fresh: "\<forall>k\<in>fst ` set (parameters (copula jc)).
                 k @ ''_c'' \<notin> fst ` set (expected_items h 0 (marginals jc))"
  proof
    fix k assume "k \<in> fst ` set (parameters (copula jc))"
    show "k @ ''_c'' \<notin> fst ` set (expected_items h 0 (marginals jc))"
    proof
      assume "k @ ''_c'' \<in> fst ` set (expected_items h 0 (marginals jc))"
      then obtain j key where "k @ ''_c'' = key @ ''_'' @ str (0 + j)"
        using expected_keys_iff[of "k @ ''_c''" h 0 "marginals jc"] by blast
      then show False using suffixed_not_copula[of key "0 + j" k] by simp
    qed
  qed
  have "foldl (\<lambda>p (key, value). AList.update (key @ ''_c'') value p)
          (expected_items h 0 (marginals jc)) (parameters (copula jc))
        = expected_items h 0 (marginals jc)
          @ map (\<lambda>(key, value). (key @ ''_c'', value)) (parameters (copula jc))"
  proof (rule foldl_update_fresh)
    show "distinct (map fst (parameters (copula jc)))" by (rule assms(2))
    show "inj (\<lambda>key. key @ ''_c'')" by (rule inj_suffix)
    show "\<forall>k\<in>fst ` set (parameters (copula jc)).
            k @ ''_c'' \<notin> fst ` set (expected_items h 0 (marginals jc))" by (rule fresh)
  qed
  then show ?thesis
    by (simp only: get_parameters_def m object_get_parameters_def)
qed

lemma update_loop_marginal_step:
  assumes "key @ ''_'' @ str i \<in> set all_keys" and "i < length (marginals jc)"
  shows "update_loop all_keys ((key @ ''_'' @ str i, v) # kwargs) h jc
           = update_loop all_keys kwargs
               (h((marginals jc ! i) := (h (marginals jc ! i))\<lparr>parameters :=
                    AList.update key v (parameters (h (marginals jc ! i)))\<rparr>))
               jc"
proof -
  have "update_loop all_keys ((key @ ''_'' @ str i, v) # kwargs) h jc
      = (let key_split = split CHR ''_'' (key @ ''_'' @ str i);
            key' = join ''_'' (butlast key_split);
            index = last key_split
        in if index = ''c''
           then update_loop all_keys kwargs h
                  (jc\<lparr>copula := (copula jc)\<lparr>parameters :=
                         AList.update key' v (parameters (copula jc))\<rparr>\<rparr>)
           else (case int_of_str index of
                   None \<Rightarrow> (Some ValueError, h, jc)
                 | Some i \<Rightarrow>
                     if length (marginals jc) \<le> i then (Some IndexError, h, jc)
                     else update_loop all_keys kwargs
                            (h((marginals jc ! i) := (h (marginals jc ! i))\<lparr>parameters :=
                                 AList.update key' v (parameters (h (marginals jc ! i)))\<rparr>))
                            jc))"
    using assms(1) by (simp only: update_loop.simps if_not_P not_not)
  then show ?thesis
    using assms(2) by (simp only: Let_def parse_marginal str_not_c if_False int_of_str_str
        option.case not_le[symmetric])
qed

lemma update_loop_copula_step:
  assumes "key @ ''_c'' \<in> set all_keys"
  shows "update_loop all_keys ((key @ ''_c'', v) # kwargs) h jc
           = update_loop all_keys kwargs h
               (jc\<lparr>copula := (copula jc)\<lparr>parameters :=
                      AList.update key v (parameters (copula jc))\<rparr>\<rparr>)"
proof -
  have "update_loop all_keys ((key @ ''_c'', v) # kwargs) h jc
      = (let key_split = split CHR ''_'' (key @ ''_c'');
            key' = join ''_'' (butlast key_split);
            index = last key_split
        in if index = ''c''
           then update_loop all_keys kwargs h
                  (jc\<lparr>copula := (copula jc)\<lparr>parameters :=
                         AList.update key' v (parameters (copula jc))\<rparr>\<rparr>)
           else (case int_of_str index of
                   None \<Rightarrow> (Some ValueError, h, jc)
                 | Some i \<Rightarrow>
                     if length (marginals jc) \<le> i then (Some IndexError, h, jc)
                     else update_loop all_keys kwargs
                            (h((marginals jc ! i) := (h (marginals jc ! i))\<lparr>parameters :=
                                 AList.update key' v (parameters (h (marginals jc ! i)))\<rparr>))
                            jc))"
    using assms(1) by (simp only: update_loop.simps if_not_P not_not)
  then show ?thesis
    by (simp only: Let_def parse_copula refl if_True)
qed


lemma update_loop_current:
  assumes "list_all (current_item h jc) kwargs" and "fst ` set kwargs \<subseteq> set all_keys"
  shows "update_loop all_keys kwargs h jc = (None, h, jc)"
  using assms
proof (induction kwargs)
  case Nil
  then show ?case by simp
next
  case (Cons item kwargs)
  obtain kx v where item: "item = (kx, v)" by (cases item)
  have cur: "current_item h jc (kx, v)" and rest: "list_all (current_item h jc) kwargs"
    using Cons.prems(1) item by simp_all
  have known: "kx \<in> set all_keys" and known': "fst ` set kwargs \<subseteq> set all_keys"
    using Cons.prems(2) item by simp_all
  have IH: "update_loop all_keys kwargs h jc = (None, h, jc)"
    using Cons.IH rest known' by blast
  from cur consider
    (cop) key where "kx = key @ ''_c''" "map_of (parameters (copula jc)) key = Some v"
    | (marg) key i where "kx = key @ ''_'' @ str i" "i < length (marginals jc)"
        "map_of (parameters (h (marginals jc ! i))) key = Some v"
    unfolding current_item_def by auto
  then show ?case
  proof cases
    case cop
    have same: "jc\<lparr>copula := (copula jc)\<lparr>parameters :=
                      AList.update key v (parameters (copula jc))\<rparr>\<rparr> = jc"
      by (simp add: update_triv[OF cop(2)])
    show ?thesis
      using update_loop_copula_step[of key all_keys v kwargs h jc] known cop(1) IH
      by (simp only: item same)
  next
    case marg
    have same: "h((marginals jc ! i) := (h (marginals jc ! i))\<lparr>parameters :=
                    AList.update key v (parameters (h (marginals jc ! i)))\<rparr>) = h"
      by (simp add: update_triv[OF marg(3)])
    show ?thesis
      using update_loop_marginal_step[of key i all_keys jc v kwargs h] known marg(1,2) IH
      by (simp only: item same)
  qed
qed

lemma map_of_distinct_item:
  "distinct (map fst al) \<Longrightarrow> (k, v) \<in> set al \<Longrightarrow> map_of al k = Some v"
  by simp

lemma expected_items_current:
  assumes "\<forall>a\<in>set (marginals jc). distinct (map fst (parameters (h a)))"
    and "item \<in> set (expected_items h 0 (marginals jc))"
  shows "current_item h jc item"
proof -
  have "(fst item, snd item) \<in> set (expected_items h 0 (marginals jc))" using assms(2) by simp
  then obtain j key where j: "j < length (marginals jc)"
    "(key, snd item) \<in> set (parameters (h (marginals jc ! j)))"
    "fst item = key @ ''_'' @ str (0 + j)"
    unfolding expected_items_iff[of "fst item" "snd item" h 0 "marginals jc"] by blast
  have "distinct (map fst (parameters (h (marginals jc ! j))))"
    using assms(1) j(1) by simp
  then have "map_of (parameters (h (marginals jc ! j))) key = Some (snd item)"
    using j(2) by (rule map_of_distinct_item)
  then have "fst item = key @ ''_'' @ str j \<and> j < length (marginals jc)
           \<and> map_of (parameters (h (marginals jc ! j))) key = Some (snd item)"
    using j by simp
  then show ?thesis unfolding current_item_def by blast
qed

lemma copula_items_current:
  assumes "distinct (map fst (parameters (copula jc)))"
    and "item \<in> set (map (\<lambda>(key, value). (key @ ''_c'', value)) (parameters (copula jc)))"
  shows "current_item h jc item"
proof -
  from assms(2) obtain kv where kv: "kv \<in> set (parameters (copula jc))"
    "item = (fst kv @ ''_c'', snd kv)" by (auto simp: case_prod_beta)
  have "map_of (parameters (copula jc)) (fst kv) = Some (snd kv)"
    using assms(1) kv(1) by simp
  then have "fst item = fst kv @ ''_c'' \<and> map_of (parameters (copula jc)) (fst kv) = Some (snd item)"
    using kv(2) by simp
  then show ?thesis unfolding current_item_def by blast
qed

text \<open>
  C8. Passing the dictionary that \<open>get_parameters\<close> returns to \<open>update_parameters\<close> raises
  nothing and leaves every marginal and the copula as they were (so \<open>get_parameters\<close> gives
  the same dictionary again), whatever the parameter names are, names with the separator
  included. The premises say that the parameter dictionaries are dictionaries: no key twice.
\<close>

theorem update_parameters_roundtrip:
  assumes "\<forall>a\<in>set (marginals jc). distinct (map fst (parameters (h a)))"
    and "distinct (map fst (parameters (copula jc)))"
  shows "update_parameters (get_parameters h jc) h jc = (None, h, jc)"
proof -
  have eq: "get_parameters h jc
           = expected_items h 0 (marginals jc)
             @ map (\<lambda>(key, value). (key @ ''_c'', value)) (parameters (copula jc))"
    using assms by (rule get_parameters_eq)
  have "\<forall>item\<in>set (get_parameters h jc). current_item h jc item"
  proof
    fix item assume "item \<in> set (get_parameters h jc)"
    then have "item \<in> set (expected_items h 0 (marginals jc))
      \<or> item \<in> set (map (\<lambda>(key, value). (key @ ''_c'', value)) (parameters (copula jc)))"
      unfolding eq by (simp only: set_append Un_iff)
    then consider "item \<in> set (expected_items h 0 (marginals jc))"
      | "item \<in> set (map (\<lambda>(key, value). (key @ ''_c'', value)) (parameters (copula jc)))"
      by blast
    then show "current_item h jc item"
      using expected_items_current[OF assms(1)] copula_items_current[OF assms(2)] by cases
  qed
  then have "list_all (current_item h jc) (get_parameters h jc)"
    by (simp only: list_all_iff)
  moreover have "fst ` set (get_parameters h jc) \<subseteq> set (map fst (get_parameters h jc))"
    by simp
  ultimately show ?thesis
    unfolding update_parameters_def by (rule update_loop_current)
qed

lemma str_0: "str 0 = ''0''" by (simp add: str.simps digit_def)

lemma str_1: "str 1 = ''1''" by (simp add: str.simps digit_def)

lemma str_Suc_0: "str (Suc 0) = ''1''" by (simp add: str.simps digit_def)

lemma example_get_parameters:
  "get_parameters example_store example_joint
     = [(''loc_0'', 0), (''scale_0'', 1), (''a_1_1'', 2), (''b_c_1'', 3), (''theta_0_c'', 5)]"
  by (simp add: get_parameters_def object_get_parameters_def example_defs str_0 str_Suc_0)

lemma example_construct:
  "JointCopula (\<lambda>_. None) example_store [0, 1] copula_g = Inr example_joint"
  by (simp add: JointCopula_def hasattr_def example_defs str_0 str_Suc_0)

lemma update_loop_bound_methods:
  "update_loop all_keys kwargs h jc = (r, h', jc') \<Longrightarrow> bound_methods jc' = bound_methods jc"
proof (induction kwargs arbitrary: h jc)
  case Nil
  then show ?case by simp
next
  case (Cons item kwargs)
  obtain kx v where item: "item = (kx, v)" by (cases item)
  show ?case
    using Cons.prems Cons.IH unfolding item
    by (fastforce simp: Let_def split: if_splits option.splits)
qed

text \<open>
  C7. A \<open>JointCopula\<close> that was constructed has \<open>cdf\<close> bound exactly when its copula has
  \<open>evaluate_cdf\<close>, \<open>pdf\<close> exactly when every marginal has \<open>pdf\<close> and the copula has
  \<open>evaluate_pdf\<close>, \<open>log_pdf\<close> exactly when every marginal has \<open>log_pdf\<close> and the copula
  has \<open>evaluate_pdf\<close>; every marginal of it has \<open>cdf\<close>, and the constructor raises when
  one has not. The methods are bound by the constructor and \<open>update_parameters\<close> leaves
  them as they are.
\<close>

theorem JointCopula_capabilities:
  "(JointCopula check h ms c = Inr jc \<longrightarrow>
       (''cdf'' \<in> set (bound_methods jc) \<longleftrightarrow> hasattr c ''evaluate_cdf'')
     \<and> (''pdf'' \<in> set (bound_methods jc) \<longleftrightarrow>
          list_all (\<lambda>a. hasattr (h a) ''pdf'') ms \<and> hasattr c ''evaluate_pdf'')
     \<and> (''log_pdf'' \<in> set (bound_methods jc) \<longleftrightarrow>
          list_all (\<lambda>a. hasattr (h a) ''log_pdf'') ms \<and> hasattr c ''evaluate_pdf'')
     \<and> list_all (\<lambda>a. hasattr (h a) ''cdf'') ms
     \<and> (\<forall>kwargs r h' jc'. update_parameters kwargs h jc = (r, h', jc')
           \<longrightarrow> bound_methods jc' = bound_methods jc))
   \<and> (\<not> list_all (\<lambda>a. hasattr (h a) ''cdf'') ms
        \<longrightarrow> (\<exists>err. JointCopula check h ms c = Inl err))"
proof (intro conjI impI)
  assume ok: "JointCopula check h ms c = Inr jc"
  then have bm: "bound_methods jc =
                 (if hasattr c ''evaluate_cdf'' then [''cdf''] else [])
                 @ (if list_all (\<lambda>m. hasattr m ''pdf'') (map h ms) \<and> hasattr c ''evaluate_pdf''
                    then [''pdf''] else [])
                 @ (if list_all (\<lambda>m. hasattr m ''log_pdf'') (map h ms) \<and> hasattr c ''evaluate_pdf''
                    then [''log_pdf''] else [])"
    and cdf: "list_all (\<lambda>m. hasattr m ''cdf'') (map h ms)"
    by (auto simp: JointCopula_def split: if_splits option.splits)
  show "''cdf'' \<in> set (bound_methods jc) \<longleftrightarrow> hasattr c ''evaluate_cdf''"
    by (simp add: bm)
  show "''pdf'' \<in> set (bound_methods jc) \<longleftrightarrow>
          list_all (\<lambda>a. hasattr (h a) ''pdf'') ms \<and> hasattr c ''evaluate_pdf''"
    by (simp add: bm list_all_iff)
  show "''log_pdf'' \<in> set (bound_methods jc) \<longleftrightarrow>
          list_all (\<lambda>a. hasattr (h a) ''log_pdf'') ms \<and> hasattr c ''evaluate_pdf''"
    by (simp add: bm list_all_iff)
  show "list_all (\<lambda>a. hasattr (h a) ''cdf'') ms" using cdf by (simp add: list_all_iff)
  show "\<forall>kwargs r h' jc'. update_parameters kwargs h jc = (r, h', jc')
           \<longrightarrow> bound_methods jc' = bound_methods jc"
    unfolding update_parameters_def using update_loop_bound_methods by blast
next
  assume "\<not> list_all (\<lambda>a. hasattr (h a) ''cdf'') ms"
  then have "\<not> list_all (\<lambda>m. hasattr m ''cdf'') (map h ms)" by (simp add: list_all_iff)
  then show "\<exists>err. JointCopula check h ms c = Inl err"
    by (simp add: JointCopula_def)
qed

theorem JointCopula_capabilities_witness:
  "JointCopula (\<lambda>_. None) example_store [0, 1] copula_g = Inr example_joint
   \<and> ''cdf'' \<in> set (bound_methods example_joint)
   \<and> hasattr copula_g ''evaluate_cdf''
   \<and> ''pdf'' \<notin> set (bound_methods example_joint)
   \<and> \<not> hasattr copula_g ''evaluate_pdf''
   \<and> \<not> list_all (\<lambda>a. hasattr (example_store a) ''cdf'') [0, 2]
   \<and> (\<exists>err. JointCopula (\<lambda>_. None) example_store [0, 2] copula_g = Inl err)"
proof -
  have c: "JointCopula (\<lambda>_. None) example_store [0, 1] copula_g = Inr example_joint"
    by (rule example_construct)
  have n: "\<not> list_all (\<lambda>a. hasattr (example_store a) ''cdf'') [0, 2]"
    by (simp add: hasattr_def example_defs)
  have e: "\<not> hasattr copula_g ''evaluate_pdf''" by (simp add: hasattr_def example_defs)
  have h1: "hasattr copula_g ''evaluate_cdf''" by (simp add: hasattr_def example_defs)
  have b1: "bound_methods example_joint = [''cdf'']" by (simp add: example_joint_def)
  have x: "\<exists>err. JointCopula (\<lambda>_. None) example_store [0, 2] copula_g = Inl err"
    by (rule JointCopula_capabilities[of "\<lambda>_. None" example_store "[0, 2]" copula_g
          example_joint, THEN conjunct2, THEN mp, OF n])
  have y: "(''cdf'' \<in> set (bound_methods example_joint)) = hasattr copula_g ''evaluate_cdf''"
    by (rule JointCopula_capabilities[of "\<lambda>_. None" example_store "[0, 1]" copula_g
          example_joint, THEN conjunct1, THEN mp, OF c, THEN conjunct1])
  show ?thesis using c n e h1 x y by (simp add: b1)
qed


theorem update_parameters_roundtrip_witness:
  "distinct (map fst (parameters (example_store 0)))
   \<and> distinct (map fst (parameters (example_store 1)))
   \<and> distinct (map fst (parameters (copula example_joint)))
   \<and> get_parameters example_store example_joint
       = [(''loc_0'', 0), (''scale_0'', 1), (''a_1_1'', 2), (''b_c_1'', 3), (''theta_0_c'', 5)]
   \<and> update_parameters
         [(''loc_0'', 0), (''scale_0'', 1), (''a_1_1'', 2), (''b_c_1'', 3), (''theta_0_c'', 5)]
         example_store example_joint
       = (None, example_store, example_joint)"
proof -
  have m: "\<forall>a\<in>set (marginals example_joint). distinct (map fst (parameters (example_store a)))"
    by (simp add: example_defs)
  have c: "distinct (map fst (parameters (copula example_joint)))"
    by (simp add: example_defs)
  have "update_parameters (get_parameters example_store example_joint) example_store example_joint
          = (None, example_store, example_joint)"
    using m c by (rule update_parameters_roundtrip)
  then show ?thesis
    using m c by (simp add: example_get_parameters) (simp add: example_defs)
qed


section \<open>Properties of MLE\<close>



















end
